theory Spec2Isabelle
  imports Complex_Main "HOL-Library.Sublist"
begin

section \<open>GEO Analyzer: the scoring engine of geo_analyzer_app.py\<close>

text \<open>
  The script fetches one page, parses it, and runs the block of lines 51--89: eleven rules
  add points to three integer sub-scores and append issues, the sub-scores are combined
  into a float, and the float is mapped to a grade and a priority. The eleven rule
  conditions are the signals; the block below them is modelled statement by statement.
\<close>

subsection \<open>Signals\<close>

text \<open>
  One field per rule condition of lines 57--81, in the order of the rules. The tenth is
  the integer \<open>external\<close> of line 78; the rule of line 79 tests \<open>external > 8\<close>.
\<close>

record signals =
  hasStructuredData :: bool
  hasSemanticSectioning :: bool
  hasGoodHeadingStructure :: bool
  hasRecentDateMention :: bool
  hasReasonableParagraphLength :: bool
  hasTabularOrDefinitionContent :: bool
  hasListContent :: bool
  mentionsFaq :: bool
  mentionsAuthorCredential :: bool
  externalLinkCount :: nat
  hasTrustBadgeImage :: bool

subsection \<open>The parsed page\<close>

text \<open>
  \<open>soup\<close> is the tree BeautifulSoup builds and \<open>text\<close> its \<open>get_text()\<close>. A node is a
  tag with a name, a dictionary of attributes and children, or a string; \<open>get_text\<close>
  collects the ordinary strings and skips the special ones (comments, doctypes, the
  contents of script and style elements). The \<open>soup\<close> object is itself a tag, named
  \<open>[document]\<close>, and the searches run over its descendants in document order.
  Characters are 8-bit: the model covers text whose code points are below 256.
\<close>

type_synonym attrs = "string \<rightharpoonup> string"

datatype node =
    Tag string attrs "node list"
  | NavigableString string
  | Comment string

fun descendants :: "node \<Rightarrow> node list"
  and descendants_list :: "node list \<Rightarrow> node list" where
  "descendants (Tag n a cs) = descendants_list cs"
| "descendants (NavigableString s) = []"
| "descendants (Comment s) = []"
| "descendants_list [] = []"
| "descendants_list (c # cs) = c # descendants c @ descendants_list cs"

fun is_tag :: "node \<Rightarrow> bool" where
  "is_tag (Tag n a cs) = True"
| "is_tag _ = False"

fun name :: "node \<Rightarrow> string" where
  "name (Tag n a cs) = n"
| "name _ = []"

fun get_attr :: "node \<Rightarrow> string \<Rightarrow> string option" where
  "get_attr (Tag n a cs) k = a k"
| "get_attr _ k = None"

text \<open>\<open>soup.find_all(...)\<close>: the tags among the descendants that pass the test;
  \<open>soup.find(...)\<close> is truthy when there is one.\<close>

definition find_all :: "(node \<Rightarrow> bool) \<Rightarrow> node \<Rightarrow> node list" where
  "find_all P x = filter (\<lambda>y. is_tag y \<and> P y) (descendants x)"

definition found :: "(node \<Rightarrow> bool) \<Rightarrow> node \<Rightarrow> bool" where
  "found P x = (find_all P x \<noteq> [])"

fun string_of :: "node \<Rightarrow> string" where
  "string_of (NavigableString s) = s"
| "string_of _ = []"

definition get_text :: "node \<Rightarrow> string" where
  "get_text x = concat (map string_of (descendants x))"

subsection \<open>Strings\<close>

text \<open>\<open>needle in s\<close>\<close>

fun contains :: "string \<Rightarrow> string \<Rightarrow> bool" where
  "contains [] needle = (needle = [])"
| "contains (c # cs) needle = (prefix needle (c # cs) \<or> contains cs needle)"

text \<open>\<open>str.lower()\<close> on code points below 256: the ASCII capitals and the Latin-1
  capitals other than the multiplication sign move up by 32.\<close>

definition lower_char :: "char \<Rightarrow> char" where
  "lower_char c =
    (let n = (of_char c :: nat)
     in if (65 \<le> n \<and> n \<le> 90) \<or> (192 \<le> n \<and> n \<le> 222 \<and> n \<noteq> 215) then char_of (n + 32)
        else c)"

definition lower :: "string \<Rightarrow> string" where
  "lower s = map lower_char s"

text \<open>\<open>str.split()\<close> cuts at runs of whitespace: the characters 9 to 13, 28 to 32, 133
  and 160 below 256.\<close>

definition is_space :: "char \<Rightarrow> bool" where
  "is_space c =
    (let n = (of_char c :: nat)
     in (9 \<le> n \<and> n \<le> 13) \<or> (28 \<le> n \<and> n \<le> 32) \<or> n = 133 \<or> n = 160)"

fun split_from :: "string \<Rightarrow> string \<Rightarrow> string list" where
  "split_from w [] = (if w = [] then [] else [w])"
| "split_from w (c # cs) =
     (if is_space c then (if w = [] then split_from [] cs else w # split_from [] cs)
      else split_from (w @ [c]) cs)"

definition str_split :: "string \<Rightarrow> string list" where
  "str_split s = split_from [] s"

text \<open>\<open>\d\<close> below code point 256 is an ASCII digit.\<close>

definition is_digit :: "char \<Rightarrow> bool" where
  "is_digit c = (let n = (of_char c :: nat) in 48 \<le> n \<and> n \<le> 57)"

subsection \<open>The regular expressions\<close>

text \<open>
  \<open>re.search(r'\d{4}-\d{2}-\d{2}|202[4-9]', text)\<close> succeeds when one of the two
  alternatives matches at some position of the text.
\<close>

fun match_iso_date :: "string \<Rightarrow> bool" where
  "match_iso_date (a # b # c # d # e # f # g # h # i # j # rest) =
     (is_digit a \<and> is_digit b \<and> is_digit c \<and> is_digit d \<and> e = CHR ''-''
      \<and> is_digit f \<and> is_digit g \<and> h = CHR ''-'' \<and> is_digit i \<and> is_digit j)"
| "match_iso_date _ = False"

fun match_year :: "string \<Rightarrow> bool" where
  "match_year (a # b # c # d # rest) =
     (a = CHR ''2'' \<and> b = CHR ''0'' \<and> c = CHR ''2''
      \<and> d \<in> {CHR ''4'', CHR ''5'', CHR ''6'', CHR ''7'', CHR ''8'', CHR ''9''})"
| "match_year _ = False"

fun search_date :: "string \<Rightarrow> bool" where
  "search_date [] = False"
| "search_date (c # cs) = (match_iso_date (c # cs) \<or> match_year (c # cs) \<or> search_date cs)"

text \<open>
  \<open>re.compile("^h[1-6]$")\<close> searched in a tag name: \<open>h\<close> and a digit from 1 to 6, at
  the start, up to the end or up to a newline that ends the name.
\<close>

definition heading_name :: "string \<Rightarrow> bool" where
  "heading_name n =
    (\<exists>d \<in> {CHR ''1'', CHR ''2'', CHR ''3'', CHR ''4'', CHR ''5'', CHR ''6''}.
       n = [CHR ''h'', d] \<or> n = [CHR ''h'', d, CHR 0x0A])"

text \<open>\<open>re.compile("badge|cert|trust", re.I)\<close> searched in an attribute value. Below
  code point 256 only the two cases of an ASCII letter match it.\<close>

definition search_badge :: "string \<Rightarrow> bool" where
  "search_badge v =
    (contains (lower v) ''badge'' \<or> contains (lower v) ''cert'' \<or> contains (lower v) ''trust'')"

subsection \<open>The rule conditions, lines 57--81\<close>

definition has_json_ld :: "node \<Rightarrow> bool" where
  "has_json_ld soup =
    found (\<lambda>x. name x = ''script'' \<and> get_attr x ''type'' = Some ''application/ld+json'') soup"

definition has_semantic_tag :: "node \<Rightarrow> bool" where
  "has_semantic_tag soup =
    list_ex (\<lambda>t. found (\<lambda>x. name x = t) soup) [''article'', ''section'', ''main'']"

definition has_headings :: "node \<Rightarrow> bool" where
  "has_headings soup =
    (found (\<lambda>x. name x = ''h1'') soup
     \<and> length (find_all (\<lambda>x. heading_name (name x)) soup) > 3)"

definition few_long_paragraphs :: "node \<Rightarrow> bool" where
  "few_long_paragraphs soup =
    (length (filter (\<lambda>p. length (str_split (get_text p)) > 80)
               (find_all (\<lambda>x. name x = ''p'') soup)) < 3)"

definition has_table :: "node \<Rightarrow> bool" where
  "has_table soup = (find_all (\<lambda>x. name x \<in> set [''table'', ''dl'']) soup \<noteq> [])"

definition has_list :: "node \<Rightarrow> bool" where
  "has_list soup = (find_all (\<lambda>x. name x \<in> set [''ul'', ''ol'']) soup \<noteq> [])"

definition mentions_faq :: "string \<Rightarrow> bool" where
  "mentions_faq text = contains (lower text) ''faq''"

definition mentions_author :: "string \<Rightarrow> bool" where
  "mentions_author text =
    list_ex (\<lambda>x. contains (lower text) x) [''by '', ''author'', ''phd'', ''engineer'']"

definition has_badge :: "node \<Rightarrow> bool" where
  "has_badge soup =
    found (\<lambda>x. case get_attr x ''src'' of None \<Rightarrow> False | Some v \<Rightarrow> search_badge v) soup"

text \<open>
  Line 78. \<open>urlparse\<close> belongs to the Python standard library, not to the repository.
  It is a parameter \<open>netloc\<close>: the \<open>netloc\<close> field of \<open>urlparse(u)\<close>, or \<open>None\<close> where
  \<open>urlparse\<close> raises \<open>ValueError\<close> (as it does for a malformed bracketed host). Nothing
  catches that exception, so it ends the analysis. The comprehension parses the link
  target and then the page URL once for every anchor that has an \<open>href\<close>.
\<close>

fun hrefs :: "node list \<Rightarrow> string list" where
  "hrefs [] = []"
| "hrefs (x # xs) = (case get_attr x ''href'' of None \<Rightarrow> hrefs xs | Some h \<Rightarrow> h # hrefs xs)"

fun count_external :: "(string \<Rightarrow> string option) \<Rightarrow> string \<Rightarrow> string list \<Rightarrow> nat option" where
  "count_external netloc url [] = Some 0"
| "count_external netloc url (h # hs) =
     (case netloc h of
        None \<Rightarrow> None
      | Some a \<Rightarrow>
          (case netloc url of
             None \<Rightarrow> None
           | Some b \<Rightarrow>
               (case count_external netloc url hs of
                  None \<Rightarrow> None
                | Some k \<Rightarrow> Some (if a \<noteq> b then Suc k else k))))"

definition external :: "(string \<Rightarrow> string option) \<Rightarrow> string \<Rightarrow> node \<Rightarrow> nat option" where
  "external netloc url soup =
    count_external netloc url (hrefs (find_all (\<lambda>x. name x = ''a'') soup))"

text \<open>The signals of a page: \<open>None\<close> when \<open>urlparse\<close> raises.\<close>

definition extract_signals :: "(string \<Rightarrow> string option) \<Rightarrow> string \<Rightarrow> node \<Rightarrow> signals option" where
  "extract_signals netloc url soup =
    (let text = get_text soup
     in case external netloc url soup of
          None \<Rightarrow> None
        | Some k \<Rightarrow>
            Some \<lparr>hasStructuredData = has_json_ld soup,
                  hasSemanticSectioning = has_semantic_tag soup,
                  hasGoodHeadingStructure = has_headings soup,
                  hasRecentDateMention = search_date text,
                  hasReasonableParagraphLength = few_long_paragraphs soup,
                  hasTabularOrDefinitionContent = has_table soup,
                  hasListContent = has_list soup,
                  mentionsFaq = mentions_faq text,
                  mentionsAuthorCredential = mentions_author text,
                  externalLinkCount = k,
                  hasTrustBadgeImage = has_badge soup\<rparr>)"

subsection \<open>The scoring block, lines 51--81\<close>

type_synonym issue = "string \<times> string"

record scores =
  tech_score :: int
  structure_score :: int
  authority_score :: int
  issues :: "issue list"

definition add_tech :: "int \<Rightarrow> scores \<Rightarrow> scores" where
  "add_tech n st = st\<lparr>tech_score := tech_score st + n\<rparr>"

definition add_structure :: "int \<Rightarrow> scores \<Rightarrow> scores" where
  "add_structure n st = st\<lparr>structure_score := structure_score st + n\<rparr>"

definition add_authority :: "int \<Rightarrow> scores \<Rightarrow> scores" where
  "add_authority n st = st\<lparr>authority_score := authority_score st + n\<rparr>"

definition append_issue :: "issue \<Rightarrow> scores \<Rightarrow> scores" where
  "append_issue i st = st\<lparr>issues := issues st @ [i]\<rparr>"

text \<open>
  Each rule is \<open>if c: score += n\<close> followed, for nine of the eleven rules, by
  \<open>else: issues.append(i)\<close>: one step on the state, choosing between two updates.
  The rules of lines 65 and 81 have no \<open>else\<close> and leave the state as it is.
\<close>

definition rule :: "bool \<Rightarrow> (scores \<Rightarrow> scores) \<Rightarrow> (scores \<Rightarrow> scores) \<Rightarrow> scores \<Rightarrow> scores" where
  "rule c pass fail st = (if c then pass st else fail st)"

definition scoring :: "signals \<Rightarrow> scores" where
  "scoring s =
    (let st = \<lparr>tech_score = 0, structure_score = 0, authority_score = 0, issues = []\<rparr>;
         st = rule (hasStructuredData s) (add_tech 35)
                (append_issue (''No JSON-LD structured data'', ''Quick'')) st;
         st = rule (hasSemanticSectioning s) (add_tech 20)
                (append_issue (''Limited semantic HTML'', ''Moderate'')) st;
         st = rule (hasGoodHeadingStructure s) (add_tech 20)
                (append_issue (''Fix heading hierarchy'', ''Moderate'')) st;
         st = rule (hasRecentDateMention s) (add_tech 15)
                (append_issue (''Add publish/update date'', ''Quick'')) st;
         st = rule (hasReasonableParagraphLength s) (add_tech 10) id st;
         st = rule (hasTabularOrDefinitionContent s) (add_structure 40)
                (append_issue (''Add spec/comparison tables'', ''Moderate'')) st;
         st = rule (hasListContent s) (add_structure 25)
                (append_issue (''Use bullet/numbered lists'', ''Quick'')) st;
         st = rule (mentionsFaq s) (add_structure 35)
                (append_issue (''Add FAQ section'', ''Moderate'')) st;
         st = rule (mentionsAuthorCredential s) (add_authority 40)
                (append_issue (''Add author byline + credentials'', ''Quick'')) st;
         st = rule (externalLinkCount s > 8) (add_authority 35)
                (append_issue (''Link to reputable sources'', ''Moderate'')) st;
         st = rule (hasTrustBadgeImage s) (add_authority 25) id st
     in st)"

subsection \<open>Python floats\<close>

text \<open>
  A Python float is an IEEE 754 binary64 number. A finite one is a rational \<open>m * 2^e\<close>
  with \<open>\<bar>m\<bar> < 2^53\<close>, and each arithmetic operation returns the representable
  number nearest to the exact result, ties going to the even mantissa. The model keeps
  the value as a rational and writes the rounding out. It is exact for results whose
  magnitude is zero or in the normal range (between \<open>2^-1022\<close> and \<open>2^1024\<close>); the
  scoring block never leaves the interval from 0 to 100.
\<close>

text \<open>\<open>bit_length n\<close> is Python's \<open>n.bit_length()\<close>: the number of binary digits of a
  positive integer.\<close>

function bit_length :: "int \<Rightarrow> int" where
  "bit_length n = (if n \<le> 0 then 0 else bit_length (n div 2) + 1)"
  by pat_completeness auto
termination
  by (relation "measure nat") auto

declare bit_length.simps [simp del]

text \<open>The exponent \<open>e\<close> with \<open>2^e \<le> x < 2^(e+1)\<close>, for positive \<open>x\<close>.\<close>

definition floor_log2 :: "rat \<Rightarrow> int" where
  "floor_log2 x =
    (let (p, q) = quotient_of x;
         e = bit_length p - bit_length q
     in if 2 powi e \<le> x then e else e - 1)"

text \<open>Rounding to the nearest integer, a tie going to the even one.\<close>

definition round_half_even :: "rat \<Rightarrow> int" where
  "round_half_even x =
    (let n = \<lfloor>x\<rfloor>; d = x - of_int n
     in if d < 1 / 2 then n else if 1 / 2 < d then n + 1 else if even n then n else n + 1)"

text \<open>The binary64 number nearest to a rational: 53 significant bits.\<close>

definition double :: "rat \<Rightarrow> rat" where
  "double x =
    (if x = 0 then 0
     else let u = 2 powi (floor_log2 \<bar>x\<bar> - 52)
          in sgn x * of_int (round_half_even (\<bar>x\<bar> / u)) * u)"

definition fmul :: "rat \<Rightarrow> rat \<Rightarrow> rat" where
  "fmul a b = double (a * b)"

definition fadd :: "rat \<Rightarrow> rat \<Rightarrow> rat" where
  "fadd a b = double (a + b)"

text \<open>
  \<open>round(x, 1)\<close> on a float: CPython converts the exact binary value to the nearest
  decimal with one digit after the point (a tie to the even digit) and converts that
  decimal back to the nearest float.
\<close>

definition py_round1 :: "rat \<Rightarrow> rat" where
  "py_round1 x = double (of_int (round_half_even (x * 10)) / 10)"

subsection \<open>Final score, line 84\<close>

text \<open>
  \<open>round(tech_score*0.4 + structure_score*0.35 + authority_score*0.25, 1)\<close>: the integer
  sub-scores convert to floats exactly, the literals are the floats nearest to the
  decimals, and \<open>+\<close> associates to the left.
\<close>

definition final_score :: "scores \<Rightarrow> rat" where
  "final_score st =
    py_round1
      (fadd (fadd (fmul (of_int (tech_score st)) (double (4 / 10)))
                  (fmul (of_int (structure_score st)) (double (35 / 100))))
            (fmul (of_int (authority_score st)) (double (25 / 100))))"

subsection \<open>Grade, lines 87--88\<close>

text \<open>
  \<open>grades\<close> is written with braces: it is a Python set of pairs, not a list. The
  generator of line 88 walks the set in its iteration order, which the language leaves
  open and which CPython derives from the hashes of the pairs; those contain strings,
  whose hashes change from one process to the next. The order is therefore a parameter:
  any list that holds each element of the set once.
\<close>

definition grades :: "(int \<times> string) set" where
  "grades = {(94, ''A+''), (87, ''A''), (80, ''A-''), (77, ''B+''), (73, ''B''), (70, ''B-''),
             (67, ''C+''), (63, ''C''), (60, ''C-'')}"

definition iteration_order :: "(int \<times> string) list \<Rightarrow> bool" where
  "iteration_order xs = (distinct xs \<and> set xs = grades)"

text \<open>\<open>next((g for s,g in grades if final_score >= s), "F")\<close>, with \<open>x\<close> for the
  value of \<open>final_score\<close>.\<close>

definition grade :: "(int \<times> string) list \<Rightarrow> rat \<Rightarrow> string" where
  "grade xs x =
    (case find (\<lambda>(s, g). of_int s \<le> x) xs of
       None \<Rightarrow> ''F''
     | Some (s, g) \<Rightarrow> g)"

text \<open>The order in which the literal of line 87 is written, highest threshold first.\<close>

definition written_order :: "(int \<times> string) list" where
  "written_order = [(94, ''A+''), (87, ''A''), (80, ''A-''), (77, ''B+''), (73, ''B''),
                    (70, ''B-''), (67, ''C+''), (63, ''C''), (60, ''C-'')]"

text \<open>Another order of the same set; CPython 3.11 iterates the set this way when it is
  started with \<open>PYTHONHASHSEED=0\<close>.\<close>

definition hashed_order :: "(int \<times> string) list" where
  "hashed_order = [(70, ''B-''), (77, ''B+''), (73, ''B''), (94, ''A+''), (80, ''A-''),
                   (60, ''C-''), (63, ''C''), (67, ''C+''), (87, ''A'')]"

subsection \<open>Priority, line 89\<close>

text \<open>
  \<open>final_score\<close> is a Python float. Every finite float is a rational number and Python
  compares a float with an integer literal exactly, so the classifier takes a rational
  \<open>x\<close>, the value of \<open>final_score\<close>.
\<close>

definition priority :: "rat \<Rightarrow> string" where
  "priority x =
    (if x < 60 then ''URGENT''
     else if x < 75 then ''HIGH''
     else if x < 85 then ''MEDIUM''
     else ''LOW'')"

subsection \<open>Display and export of the issues, lines 106 and 121\<close>

definition displayed_issues :: "scores \<Rightarrow> issue list" where
  "displayed_issues st = take 10 (issues st)"

definition pdf_issues :: "scores \<Rightarrow> issue list" where
  "pdf_issues st = issues st"

subsection \<open>The whole analysis\<close>

text \<open>Lines 45--81 on a parsed page: the signals, then the scoring block.\<close>

definition analyze :: "(string \<Rightarrow> string option) \<Rightarrow> string \<Rightarrow> node \<Rightarrow> scores option" where
  "analyze netloc url soup = map_option scoring (extract_signals netloc url soup)"

subsection \<open>The network location of a URL\<close>

text \<open>
  What \<open>urllib.parse.urlsplit\<close> of CPython 3.12 computes as \<open>netloc\<close> before it validates
  it: leading control characters and spaces are stripped, tabs and line breaks are
  removed, a scheme (a letter, then letters, digits, \<open>+\<close>, \<open>-\<close> or \<open>.\<close>, up to the first colon)
  is cut off, and if \<open>//\<close> follows, the network location runs up to the next
  \<open>/\<close>, \<open>?\<close> or \<open>#\<close>. Otherwise it is empty. \<open>urlparse\<close> returns this value whenever it
  returns.
\<close>

definition is_ascii_letter :: "char \<Rightarrow> bool" where
  "is_ascii_letter c =
    (let n = (of_char c :: nat) in (65 \<le> n \<and> n \<le> 90) \<or> (97 \<le> n \<and> n \<le> 122))"

definition is_scheme_char :: "char \<Rightarrow> bool" where
  "is_scheme_char c =
    (is_ascii_letter c \<or> is_digit c \<or> c = CHR ''+'' \<or> c = CHR ''-'' \<or> c = CHR ''.'')"

definition strip_scheme :: "string \<Rightarrow> string" where
  "strip_scheme url =
    (let s = takeWhile (\<lambda>c. c \<noteq> CHR '':'') url
     in if length s < length url \<and> s \<noteq> [] \<and> is_ascii_letter (hd s) \<and> list_all is_scheme_char s
        then drop (length s + 1) url
        else url)"

definition urlsplit_netloc :: "string \<Rightarrow> string" where
  "urlsplit_netloc u =
    (let url = dropWhile (\<lambda>c. (of_char c :: nat) \<le> 32) u;
         url = filter (\<lambda>c. c \<notin> {CHR 0x09, CHR 0x0D, CHR 0x0A}) url;
         url = strip_scheme url
     in if take 2 url = ''//''
        then takeWhile (\<lambda>c. c \<notin> {CHR ''/'', CHR ''?'', CHR ''#''}) (drop 2 url)
        else [])"

definition python_netloc :: "string \<Rightarrow> string option" where
  "python_netloc u = Some (urlsplit_netloc u)"

subsection \<open>Example pages\<close>

text \<open>The parse of the empty markup: a document with no children.\<close>

definition empty_soup :: node where
  "empty_soup = Tag ''[document]'' Map.empty []"

text \<open>The signals of the empty page: no rule condition holds but that of line 65,
  since none of its paragraphs is long.\<close>

definition empty_signals :: signals where
  "empty_signals =
    \<lparr>hasStructuredData = False, hasSemanticSectioning = False,
     hasGoodHeadingStructure = False, hasRecentDateMention = False,
     hasReasonableParagraphLength = True, hasTabularOrDefinitionContent = False,
     hasListContent = False, mentionsFaq = False, mentionsAuthorCredential = False,
     externalLinkCount = 0, hasTrustBadgeImage = False\<rparr>"

text \<open>A page whose only content is nine links to its own site.\<close>

definition site_link :: node where
  "site_link = Tag ''a'' [''href'' \<mapsto> ''/about''] [NavigableString ''Up'']"

definition nine_site_links :: node where
  "nine_site_links = Tag ''[document]'' Map.empty (replicate 9 site_link)"

text \<open>A page with one text and nothing else.\<close>

definition text_page :: "string \<Rightarrow> node" where
  "text_page s = Tag ''[document]'' Map.empty [Tag ''p'' Map.empty [NavigableString s]]"

text \<open>What the scoring block returns for the empty page.\<close>

definition empty_scores :: scores where
  "empty_scores =
    \<lparr>tech_score = 10, structure_score = 0, authority_score = 0,
     issues = [(''No JSON-LD structured data'', ''Quick''),
               (''Limited semantic HTML'', ''Moderate''),
               (''Fix heading hierarchy'', ''Moderate''),
               (''Add publish/update date'', ''Quick''),
               (''Add spec/comparison tables'', ''Moderate''),
               (''Use bullet/numbered lists'', ''Quick''),
               (''Add FAQ section'', ''Moderate''),
               (''Add author byline + credentials'', ''Quick''),
               (''Link to reputable sources'', ''Moderate'')]\<rparr>"

text \<open>The signals of the page of nine site links, and of a page whose only signal
  beside that of line 65 is the date.\<close>

definition site_links_signals :: signals where
  "site_links_signals = empty_signals\<lparr>externalLinkCount := 9\<rparr>"

definition date_page_signals :: signals where
  "date_page_signals = empty_signals\<lparr>hasRecentDateMention := True\<rparr>"

text \<open>Signal sets in which every rule passes and in which none does.\<close>

definition passing_signals :: signals where
  "passing_signals =
    \<lparr>hasStructuredData = True, hasSemanticSectioning = True,
     hasGoodHeadingStructure = True, hasRecentDateMention = True,
     hasReasonableParagraphLength = True, hasTabularOrDefinitionContent = True,
     hasListContent = True, mentionsFaq = True, mentionsAuthorCredential = True,
     externalLinkCount = 10, hasTrustBadgeImage = True\<rparr>"

definition failing_signals :: signals where
  "failing_signals = empty_signals\<lparr>hasReasonableParagraphLength := False\<rparr>"

subsection \<open>The rule table of the specification\<close>

text \<open>
  The nine rules that carry an issue text, in the order of the specification's table:
  the condition under which the rule passes, and the issue appended when it fails.
\<close>

definition issue_table :: "((signals \<Rightarrow> bool) \<times> issue) list" where
  "issue_table =
    [(hasStructuredData, (''No JSON-LD structured data'', ''Quick'')),
     (hasSemanticSectioning, (''Limited semantic HTML'', ''Moderate'')),
     (hasGoodHeadingStructure, (''Fix heading hierarchy'', ''Moderate'')),
     (hasRecentDateMention, (''Add publish/update date'', ''Quick'')),
     (hasTabularOrDefinitionContent, (''Add spec/comparison tables'', ''Moderate'')),
     (hasListContent, (''Use bullet/numbered lists'', ''Quick'')),
     (mentionsFaq, (''Add FAQ section'', ''Moderate'')),
     (mentionsAuthorCredential, (''Add author byline + credentials'', ''Quick'')),
     (\<lambda>s. externalLinkCount s > 8, (''Link to reputable sources'', ''Moderate''))]"

definition failed_issues :: "signals \<Rightarrow> issue list" where
  "failed_issues s = map snd (filter (\<lambda>r. \<not> fst r s) issue_table)"

text \<open>The weighted sum of the specification, in exact arithmetic, and its rounding to
  one decimal.\<close>

definition weighted_sum :: "scores \<Rightarrow> rat" where
  "weighted_sum st =
     of_int (tech_score st) * (40 / 100) + of_int (structure_score st) * (35 / 100)
     + of_int (authority_score st) * (25 / 100)"

definition all_rules_fail :: "signals \<Rightarrow> bool" where
  "all_rules_fail s =
    (\<not> hasStructuredData s \<and> \<not> hasSemanticSectioning s \<and> \<not> hasGoodHeadingStructure s
     \<and> \<not> hasRecentDateMention s \<and> \<not> hasReasonableParagraphLength s
     \<and> \<not> hasTabularOrDefinitionContent s \<and> \<not> hasListContent s \<and> \<not> mentionsFaq s
     \<and> \<not> mentionsAuthorCredential s \<and> \<not> externalLinkCount s > 8 \<and> \<not> hasTrustBadgeImage s)"

definition all_rules_pass :: "signals \<Rightarrow> bool" where
  "all_rules_pass s =
    (hasStructuredData s \<and> hasSemanticSectioning s \<and> hasGoodHeadingStructure s
     \<and> hasRecentDateMention s \<and> hasReasonableParagraphLength s
     \<and> hasTabularOrDefinitionContent s \<and> hasListContent s \<and> mentionsFaq s
     \<and> mentionsAuthorCredential s \<and> externalLinkCount s > 8 \<and> hasTrustBadgeImage s)"

text \<open>The two shapes of text the claim about dates speaks of: a string of the form
  \<open>dddd-dd-dd\<close>, and the four digits of a year from 2024 to 2029.\<close>

definition iso_shaped :: "string \<Rightarrow> bool" where
  "iso_shaped m =
    (length m = 10 \<and> list_all is_digit (take 4 m) \<and> m ! 4 = CHR ''-''
     \<and> list_all is_digit (take 2 (drop 5 m)) \<and> m ! 7 = CHR ''-''
     \<and> list_all is_digit (drop 8 m))"

definition recent_years :: "string list" where
  "recent_years = [''2024'', ''2025'', ''2026'', ''2027'', ''2028'', ''2029'']"

section \<open>Properties\<close>

subsection \<open>The scoring block in closed form\<close>

text \<open>What one rule does to each component of the state.\<close>

lemma rule_tech:
  "tech_score (rule c (add_tech n) (append_issue i) st) = tech_score st + (if c then n else 0)"
  "tech_score (rule c (add_tech n) id st) = tech_score st + (if c then n else 0)"
  "tech_score (rule c (add_structure n) (append_issue i) st) = tech_score st"
  "tech_score (rule c (add_authority n) (append_issue i) st) = tech_score st"
  "tech_score (rule c (add_authority n) id st) = tech_score st"
  by (simp_all add: rule_def add_tech_def add_structure_def add_authority_def append_issue_def)

lemma rule_structure:
  "structure_score (rule c (add_structure n) (append_issue i) st)
     = structure_score st + (if c then n else 0)"
  "structure_score (rule c (add_tech n) (append_issue i) st) = structure_score st"
  "structure_score (rule c (add_tech n) id st) = structure_score st"
  "structure_score (rule c (add_authority n) (append_issue i) st) = structure_score st"
  "structure_score (rule c (add_authority n) id st) = structure_score st"
  by (simp_all add: rule_def add_tech_def add_structure_def add_authority_def append_issue_def)

lemma rule_authority:
  "authority_score (rule c (add_authority n) (append_issue i) st)
     = authority_score st + (if c then n else 0)"
  "authority_score (rule c (add_authority n) id st) = authority_score st + (if c then n else 0)"
  "authority_score (rule c (add_tech n) (append_issue i) st) = authority_score st"
  "authority_score (rule c (add_tech n) id st) = authority_score st"
  "authority_score (rule c (add_structure n) (append_issue i) st) = authority_score st"
  by (simp_all add: rule_def add_tech_def add_structure_def add_authority_def append_issue_def)

lemma rule_issues:
  "issues (rule c (add_tech n) (append_issue i) st) = issues st @ (if c then [] else [i])"
  "issues (rule c (add_structure n) (append_issue i) st) = issues st @ (if c then [] else [i])"
  "issues (rule c (add_authority n) (append_issue i) st) = issues st @ (if c then [] else [i])"
  "issues (rule c (add_tech n) id st) = issues st"
  "issues (rule c (add_authority n) id st) = issues st"
  by (simp_all add: rule_def add_tech_def add_structure_def add_authority_def append_issue_def)

lemma tech_score_scoring:
  "tech_score (scoring s) =
     (if hasStructuredData s then 35 else 0) + (if hasSemanticSectioning s then 20 else 0)
     + (if hasGoodHeadingStructure s then 20 else 0) + (if hasRecentDateMention s then 15 else 0)
     + (if hasReasonableParagraphLength s then 10 else 0)"
  unfolding scoring_def Let_def rule_tech by simp

lemma structure_score_scoring:
  "structure_score (scoring s) =
     (if hasTabularOrDefinitionContent s then 40 else 0) + (if hasListContent s then 25 else 0)
     + (if mentionsFaq s then 35 else 0)"
  unfolding scoring_def Let_def rule_structure by simp

lemma authority_score_scoring:
  "authority_score (scoring s) =
     (if mentionsAuthorCredential s then 40 else 0) + (if externalLinkCount s > 8 then 35 else 0)
     + (if hasTrustBadgeImage s then 25 else 0)"
  unfolding scoring_def Let_def rule_authority by simp

lemma issues_scoring:
  "issues (scoring s) =
     (if hasStructuredData s then [] else [(''No JSON-LD structured data'', ''Quick'')])
     @ (if hasSemanticSectioning s then [] else [(''Limited semantic HTML'', ''Moderate'')])
     @ (if hasGoodHeadingStructure s then [] else [(''Fix heading hierarchy'', ''Moderate'')])
     @ (if hasRecentDateMention s then [] else [(''Add publish/update date'', ''Quick'')])
     @ (if hasTabularOrDefinitionContent s then []
        else [(''Add spec/comparison tables'', ''Moderate'')])
     @ (if hasListContent s then [] else [(''Use bullet/numbered lists'', ''Quick'')])
     @ (if mentionsFaq s then [] else [(''Add FAQ section'', ''Moderate'')])
     @ (if mentionsAuthorCredential s then []
        else [(''Add author byline + credentials'', ''Quick'')])
     @ (if externalLinkCount s > 8 then [] else [(''Link to reputable sources'', ''Moderate'')])"
  unfolding scoring_def Let_def rule_issues by (simp only: scores.simps append_Nil append_assoc)

lemma length_issues_le: "length (issues (scoring s)) \<le> 9"
  unfolding issues_scoring length_append
  by (simp only: if_distrib [of length] list.size) simp

subsection \<open>Facts about the float model\<close>

lemma bit_length_nonneg: "0 \<le> bit_length n"
  by (induction n rule: bit_length.induct) (subst bit_length.simps, simp)

lemma bit_length_bounds:
  "0 < n \<Longrightarrow> 2 ^ nat (bit_length n - 1) \<le> n \<and> n < 2 ^ nat (bit_length n)"
proof (induction n rule: bit_length.induct)
  case (1 n)
  show ?case
  proof (cases "n = 1")
    case True
    then show ?thesis by (simp add: bit_length.simps)
  next
    case False
    with "1.prems" have h: "0 < n div 2" by simp
    have nn: "\<not> n \<le> 0" using "1.prems" by simp
    from "1.IH" [OF nn h] have
      lo: "2 ^ nat (bit_length (n div 2) - 1) \<le> n div 2" and
      hi: "n div 2 < 2 ^ nat (bit_length (n div 2))" by simp_all
    have pos: "0 < bit_length (n div 2)"
      using h bit_length_nonneg [of "n div 2 div 2"] by (subst bit_length.simps) simp
    have bl: "bit_length n = bit_length (n div 2) + 1"
      using nn by (subst bit_length.simps) simp
    have e1: "nat (bit_length n - 1) = Suc (nat (bit_length (n div 2) - 1))"
      using pos bl by simp
    have e2: "nat (bit_length n) = Suc (nat (bit_length (n div 2)))"
      using pos bl by simp
    have d1: "2 * (n div 2) \<le> n" and d2: "n < 2 * (n div 2) + 2" by presburger+
    show ?thesis unfolding e1 e2 power_Suc using lo hi d1 d2 by linarith
  qed
qed

lemma floor_log2_le:
  assumes "0 < x"
  shows "2 powi floor_log2 x \<le> x"
proof -
  obtain p q where pq: "quotient_of x = (p, q)" by (cases "quotient_of x")
  have q: "0 < q" using quotient_of_denom_pos [OF pq] .
  have x: "x = of_int p / of_int q" using quotient_of_div [OF pq] .
  have p: "0 < p" using assms q unfolding x by (simp add: zero_less_divide_iff)
  define e where "e = bit_length p - bit_length q"
  show ?thesis
  proof (cases "2 powi e \<le> x")
    case True
    then show ?thesis by (simp add: floor_log2_def pq e_def)
  next
    case False
    then have fl: "floor_log2 x = e - 1" by (simp add: floor_log2_def pq e_def)
    have lo: "(2::rat) ^ nat (bit_length p - 1) \<le> of_int p"
    proof -
      have "(2::int) ^ nat (bit_length p - 1) \<le> p" using bit_length_bounds [OF p] by simp
      then have "of_int ((2::int) ^ nat (bit_length p - 1)) \<le> (of_int p :: rat)"
        by (simp only: of_int_le_iff)
      then show ?thesis by simp
    qed
    have hi: "of_int q \<le> (2::rat) ^ nat (bit_length q)"
    proof -
      have "q \<le> (2::int) ^ nat (bit_length q)" using bit_length_bounds [OF q] by simp
      then have "(of_int q :: rat) \<le> of_int ((2::int) ^ nat (bit_length q))"
        by (simp only: of_int_le_iff)
      then show ?thesis by simp
    qed
    have bp: "0 < bit_length p"
      using p bit_length_nonneg [of "p div 2"] by (subst bit_length.simps) simp
    have bq: "0 \<le> bit_length q" by (rule bit_length_nonneg)
    have "(2::rat) powi (e - 1) = 2 powi (bit_length p - 1) / 2 powi (bit_length q)"
      unfolding e_def by (simp add: power_int_diff [symmetric] algebra_simps)
    also have "\<dots> = 2 ^ nat (bit_length p - 1) / 2 ^ nat (bit_length q)"
      using bp bq by (simp add: power_int_def)
    also have "\<dots> \<le> of_int p / of_int q"
      using lo hi q p by (intro frac_le) simp_all
    also have "\<dots> = x" by (rule x [symmetric])
    finally show ?thesis by (simp only: fl)
  qed
qed

lemma floor_log2_less:
  assumes "0 < x"
  shows "x < 2 powi (floor_log2 x + 1)"
proof -
  obtain p q where pq: "quotient_of x = (p, q)" by (cases "quotient_of x")
  have q: "0 < q" using quotient_of_denom_pos [OF pq] .
  have x: "x = of_int p / of_int q" using quotient_of_div [OF pq] .
  have p: "0 < p" using assms q unfolding x by (simp add: zero_less_divide_iff)
  define e where "e = bit_length p - bit_length q"
  show ?thesis
  proof (cases "2 powi e \<le> x")
    case False
    then show ?thesis by (simp add: floor_log2_def pq e_def)
  next
    case True
    then have fl: "floor_log2 x = e" by (simp add: floor_log2_def pq e_def)
    have hi: "of_int p < (2::rat) ^ nat (bit_length p)"
    proof -
      have "p < (2::int) ^ nat (bit_length p)" using bit_length_bounds [OF p] by simp
      then have "(of_int p :: rat) < of_int ((2::int) ^ nat (bit_length p))"
        by (simp only: of_int_less_iff)
      then show ?thesis by simp
    qed
    have lo: "(2::rat) ^ nat (bit_length q - 1) \<le> of_int q"
    proof -
      have "(2::int) ^ nat (bit_length q - 1) \<le> q" using bit_length_bounds [OF q] by simp
      then have "of_int ((2::int) ^ nat (bit_length q - 1)) \<le> (of_int q :: rat)"
        by (simp only: of_int_le_iff)
      then show ?thesis by simp
    qed
    have bq: "0 < bit_length q"
      using q bit_length_nonneg [of "q div 2"] by (subst bit_length.simps) simp
    have bp: "0 \<le> bit_length p" by (rule bit_length_nonneg)
    have "x = of_int p / of_int q" by (rule x)
    also have "\<dots> < 2 ^ nat (bit_length p) / 2 ^ nat (bit_length q - 1)"
      using hi lo q p by (intro frac_less) simp_all
    also have "\<dots> = 2 powi (bit_length p) / 2 powi (bit_length q - 1)"
      using bp bq by (simp add: power_int_def)
    also have "\<dots> = 2 powi (e + 1)"
      unfolding e_def by (simp add: power_int_diff [symmetric] algebra_simps)
    finally show ?thesis by (simp only: fl)
  qed
qed

text \<open>Two values of the model against Python: \<open>0.1\<close> is \<open>3602879701896397 / 2^55\<close>, and
  \<open>45 * 0.35\<close> is not \<open>15.75\<close> but \<open>15.749999999999998\<close>, one unit in the last place
  below.\<close>

lemma double_examples:
  "double (1 / 10) = 3602879701896397 / 2 ^ 55"
  "fmul 45 (double (35 / 100)) = 1575 / 100 - 1 / 2 ^ 49"
  by code_simp+

lemma round_half_even_of_int: "round_half_even (of_int n) = n"
  by (simp add: round_half_even_def)

lemma round_half_even_le: "of_int (round_half_even y) \<le> y + 1 / 2"
  unfolding round_half_even_def Let_def by (auto simp: not_less) linarith+

lemma round_half_even_ge: "y - 1 / 2 \<le> of_int (round_half_even y)"
  unfolding round_half_even_def Let_def by (auto simp: not_less) linarith+

lemma double_pos:
  assumes "0 < x"
  shows "0 < double x"
proof -
  define u :: rat where "u = 2 powi (floor_log2 x - 52)"
  have u: "0 < u" by (simp add: u_def)
  have "2 powi floor_log2 x = u * 2 ^ 52"
    unfolding u_def by (simp add: power_int_diff)
  then have "u * 2 ^ 52 \<le> x" using floor_log2_le [OF assms] by simp
  then have "2 ^ 52 \<le> x / u" using u by (simp add: pos_le_divide_eq mult.commute)
  then have "1 \<le> x / u" by simp
  then have "1 \<le> of_int (round_half_even (x / u)) + (1 / 2 :: rat)"
    using round_half_even_ge [of "x / u"] by linarith
  then have "0 < round_half_even (x / u)" by linarith
  then show ?thesis using assms u by (simp add: double_def u_def [symmetric])
qed

lemma double_upper:
  assumes "0 < x"
  shows "double x \<le> x + x / 2 ^ 53"
proof -
  define u :: rat where "u = 2 powi (floor_log2 x - 52)"
  have u: "0 < u" by (simp add: u_def)
  have "2 powi floor_log2 x = u * 2 ^ 52"
    unfolding u_def by (simp add: power_int_diff)
  then have ux: "u * 2 ^ 52 \<le> x" using floor_log2_le [OF assms] by simp
  have d: "double x = of_int (round_half_even (x / u)) * u"
    using assms by (simp add: double_def u_def [symmetric])
  have "of_int (round_half_even (x / u)) * u \<le> (x / u + 1 / 2) * u"
    using round_half_even_le [of "x / u"] u by (intro mult_right_mono) simp_all
  also have "\<dots> = x + u / 2" using u by (simp add: field_simps)
  also have "\<dots> \<le> x + x / 2 ^ 53" using ux by (simp add: field_simps)
  finally show ?thesis unfolding d .
qed

lemma double_quarters:
  assumes "0 \<le> n" "n < 2 ^ 53"
  shows "double (of_int n / 4) = of_int n / 4"
proof (cases "n = 0")
  case True
  then show ?thesis by (simp add: double_def)
next
  case False
  define x :: rat where "x = of_int n / 4"
  with assms False have x: "0 < x" by simp
  define e where "e = floor_log2 x"
  define u :: rat where "u = 2 powi (e - 52)"
  have u: "0 < u" by (simp add: u_def)
  have "(of_int n :: rat) < of_int (2 ^ 53)" using assms(2) by (simp only: of_int_less_iff)
  then have "x < 2 powi 51" by (simp add: x_def)
  with floor_log2_le [OF x] have lt: "(2::rat) powi e < 2 powi 51" unfolding e_def by simp
  have e: "e < 51"
  proof (rule ccontr)
    assume "\<not> e < 51"
    then have "(2::rat) powi 51 \<le> 2 powi e" by (intro power_int_increasing) simp_all
    with lt show False by simp
  qed
  define k where "k = nat (50 - e)"
  have "(2::rat) powi (e - 52) = 2 powi (- (int k + 2))" using e by (simp add: k_def)
  also have "\<dots> = 1 / 2 powi (int k + 2)" by (rule power_int_minus_divide)
  also have "(2::rat) powi (int k + 2) = 2 ^ k * 4" by (simp add: power_int_add)
  finally have ueq: "u = 1 / (2 ^ k * 4)" unfolding u_def .
  have xu: "x / u = of_int (n * 2 ^ k)" by (simp add: ueq x_def)
  have "of_int (round_half_even (x / u)) * u = of_int (n * 2 ^ k) * u"
    by (simp only: xu round_half_even_of_int)
  also have "\<dots> = x" by (simp add: ueq x_def)
  finally have "of_int (round_half_even (x / u)) * u = x" .
  then show ?thesis using x by (simp add: double_def x_def [symmetric] e_def [symmetric] u_def [symmetric])
qed

subsection \<open>The final score without rounding error\<close>

text \<open>
  On the sub-scores the block can produce, each of the three products and both sums are
  representable, so the only rounding is that of \<open>round\<close>: the final score is the float
  nearest to the exact weighted sum rounded to one decimal.
\<close>

lemma tech_product_exact_list:
  "list_all (\<lambda>k. double (of_int (5 * k) * double (4 / 10)) = of_int (2 * k)) [0..20]"
  by code_simp

lemma structure_product_exact_list:
  "list_all (\<lambda>k. double (of_int k * double (35 / 100)) = of_int (7 * k) / 20)
     [0, 25, 35, 40, 60, 65, 75, 100]"
  by code_simp

lemma tech_product_exact:
  assumes "0 \<le> t" "t \<le> 100" "t mod 5 = 0"
  shows "fmul (of_int t) (double (4 / 10)) = of_int (2 * (t div 5))"
proof -
  have "0 \<le> t div 5 \<and> t div 5 \<le> 20" using assms by presburger
  then have "t div 5 \<in> set [0..20]" by simp
  with tech_product_exact_list
  have "double (of_int (5 * (t div 5)) * double (4 / 10)) = of_int (2 * (t div 5))"
    unfolding list_all_iff by blast
  moreover have "5 * (t div 5) = t" using assms(3) by presburger
  ultimately show ?thesis by (simp add: fmul_def)
qed

lemma structure_product_exact:
  assumes "t \<in> {0, 25, 35, 40, 60, 65, 75, 100}"
  shows "fmul (of_int t) (double (35 / 100)) = of_int (7 * t) / 20"
proof -
  have "t \<in> set [0, 25, 35, 40, 60, 65, 75, 100]" using assms by simp
  with structure_product_exact_list show ?thesis
    unfolding list_all_iff fmul_def by blast
qed

lemma authority_product_exact:
  assumes "0 \<le> t" "t \<le> 100"
  shows "fmul (of_int t) (double (25 / 100)) = of_int t / 4"
proof -
  have q: "double (25 / 100) = 1 / 4" using double_quarters [of 1] by simp
  have "fmul (of_int t) (double (25 / 100)) = double (of_int t / 4)"
    unfolding fmul_def q by simp
  also have "\<dots> = of_int t / 4"
    using assms by (intro double_quarters) simp_all
  finally show ?thesis .
qed

lemma tech_score_range:
  "0 \<le> tech_score (scoring s)" "tech_score (scoring s) \<le> 100"
  "tech_score (scoring s) mod 5 = 0"
  by (simp_all add: tech_score_scoring)

lemma structure_score_values:
  "structure_score (scoring s) \<in> {0, 25, 35, 40, 60, 65, 75, 100}"
  by (simp add: structure_score_scoring)

lemma structure_score_range:
  "0 \<le> structure_score (scoring s)" "structure_score (scoring s) \<le> 100"
  by (simp_all add: structure_score_scoring)

lemma authority_score_range:
  "0 \<le> authority_score (scoring s)" "authority_score (scoring s) \<le> 100"
  by (simp_all add: authority_score_scoring)

lemma final_score_exact:
  "final_score (scoring s) =
     double (of_int (round_half_even (weighted_sum (scoring s) * 10)) / 10)"
proof -
  define t where "t = tech_score (scoring s)"
  define u where "u = structure_score (scoring s)"
  define a where "a = authority_score (scoring s)"
  have t: "0 \<le> t" "t \<le> 100" "t mod 5 = 0"
    unfolding t_def by (rule tech_score_range)+
  have u: "u \<in> {0, 25, 35, 40, 60, 65, 75, 100}"
    unfolding u_def by (rule structure_score_values)
  have u': "0 \<le> u" "u \<le> 100" unfolding u_def by (rule structure_score_range)+
  have a: "0 \<le> a" "a \<le> 100" unfolding a_def by (rule authority_score_range)+
  have u5: "u mod 5 = 0" using u by auto
  have p1: "fmul (of_int t) (double (4 / 10)) = of_int (2 * (t div 5))"
    using t by (rule tech_product_exact)
  have p2: "fmul (of_int u) (double (35 / 100)) = of_int (7 * u) / 20"
    using u by (rule structure_product_exact)
  have p3: "fmul (of_int a) (double (25 / 100)) = of_int a / 4"
    using a by (rule authority_product_exact)
  have t5: "(of_int t :: rat) = 5 * of_int (t div 5)"
  proof -
    have "t = 5 * (t div 5)" using t(3) by presburger
    then have "(of_int t :: rat) = of_int (5 * (t div 5))" by simp
    then show ?thesis by simp
  qed
  have u5': "(of_int u :: rat) = 5 * of_int (u div 5)"
  proof -
    have "u = 5 * (u div 5)" using u5 by presburger
    then have "(of_int u :: rat) = of_int (5 * (u div 5))" by simp
    then show ?thesis by simp
  qed
  have s1: "of_int (2 * (t div 5)) + of_int (7 * u) / 20
              = (of_int (8 * (t div 5) + 7 * (u div 5)) / 4 :: rat)"
    by (simp add: u5')
  have b1: "0 \<le> 8 * (t div 5) + 7 * (u div 5)" "8 * (t div 5) + 7 * (u div 5) < 2 ^ 53"
    using t u' by simp_all
  have f1: "fadd (fmul (of_int t) (double (4 / 10))) (fmul (of_int u) (double (35 / 100)))
              = of_int (8 * (t div 5) + 7 * (u div 5)) / 4"
    unfolding fadd_def p1 p2 s1 using b1 by (rule double_quarters)
  have s2: "of_int (8 * (t div 5) + 7 * (u div 5)) / 4 + of_int a / 4
              = (of_int (8 * (t div 5) + 7 * (u div 5) + a) / 4 :: rat)"
    by simp
  have b2: "0 \<le> 8 * (t div 5) + 7 * (u div 5) + a" "8 * (t div 5) + 7 * (u div 5) + a < 2 ^ 53"
    using t u' a by simp_all
  have f2: "fadd (fadd (fmul (of_int t) (double (4 / 10))) (fmul (of_int u) (double (35 / 100))))
                 (fmul (of_int a) (double (25 / 100)))
              = of_int (8 * (t div 5) + 7 * (u div 5) + a) / 4"
    unfolding f1 p3 unfolding fadd_def s2 using b2 by (rule double_quarters)
  have w: "weighted_sum (scoring s) = of_int (8 * (t div 5) + 7 * (u div 5) + a) / 4"
    unfolding weighted_sum_def t_def [symmetric] u_def [symmetric] a_def [symmetric]
    by (simp add: t5 u5')
  show ?thesis
    unfolding final_score_def t_def [symmetric] u_def [symmetric] a_def [symmetric] f2 w
      py_round1_def ..
qed

subsection \<open>When the final score is 0 and when it is 100\<close>

lemma tech_score_extremes:
  "(tech_score (scoring s) = 0) =
     (\<not> hasStructuredData s \<and> \<not> hasSemanticSectioning s \<and> \<not> hasGoodHeadingStructure s
      \<and> \<not> hasRecentDateMention s \<and> \<not> hasReasonableParagraphLength s)"
  "(tech_score (scoring s) = 100) =
     (hasStructuredData s \<and> hasSemanticSectioning s \<and> hasGoodHeadingStructure s
      \<and> hasRecentDateMention s \<and> hasReasonableParagraphLength s)"
  "tech_score (scoring s) \<noteq> 0 \<Longrightarrow> 10 \<le> tech_score (scoring s)"
  "tech_score (scoring s) \<noteq> 100 \<Longrightarrow> tech_score (scoring s) \<le> 90"
  by (auto simp: tech_score_scoring split: if_splits)

lemma structure_score_extremes:
  "(structure_score (scoring s) = 0) =
     (\<not> hasTabularOrDefinitionContent s \<and> \<not> hasListContent s \<and> \<not> mentionsFaq s)"
  "(structure_score (scoring s) = 100) =
     (hasTabularOrDefinitionContent s \<and> hasListContent s \<and> mentionsFaq s)"
  "structure_score (scoring s) \<noteq> 0 \<Longrightarrow> 25 \<le> structure_score (scoring s)"
  "structure_score (scoring s) \<noteq> 100 \<Longrightarrow> structure_score (scoring s) \<le> 75"
  by (auto simp: structure_score_scoring split: if_splits)

lemma authority_score_extremes:
  "(authority_score (scoring s) = 0) =
     (\<not> mentionsAuthorCredential s \<and> \<not> externalLinkCount s > 8 \<and> \<not> hasTrustBadgeImage s)"
  "(authority_score (scoring s) = 100) =
     (mentionsAuthorCredential s \<and> externalLinkCount s > 8 \<and> hasTrustBadgeImage s)"
  "authority_score (scoring s) \<noteq> 0 \<Longrightarrow> 25 \<le> authority_score (scoring s)"
  "authority_score (scoring s) \<noteq> 100 \<Longrightarrow> authority_score (scoring s) \<le> 75"
  by (auto simp: authority_score_scoring split: if_splits)

lemma all_rules_fail_iff:
  "all_rules_fail s =
     (tech_score (scoring s) = 0 \<and> structure_score (scoring s) = 0
      \<and> authority_score (scoring s) = 0)"
  unfolding all_rules_fail_def tech_score_extremes(1) structure_score_extremes(1)
    authority_score_extremes(1) by (simp only: conj_assoc)

lemma all_rules_pass_iff:
  "all_rules_pass s =
     (tech_score (scoring s) = 100 \<and> structure_score (scoring s) = 100
      \<and> authority_score (scoring s) = 100)"
  unfolding all_rules_pass_def tech_score_extremes(2) structure_score_extremes(2)
    authority_score_extremes(2) by (simp only: conj_assoc)

lemma weighted_sum_fail:
  "all_rules_fail s \<Longrightarrow> weighted_sum (scoring s) = 0"
  by (simp add: all_rules_fail_iff weighted_sum_def)

lemma weighted_sum_pass:
  "all_rules_pass s \<Longrightarrow> weighted_sum (scoring s) = 100"
  by (simp add: all_rules_pass_iff weighted_sum_def)

lemma weighted_sum_nonneg: "0 \<le> weighted_sum (scoring s)"
  unfolding weighted_sum_def
  using tech_score_range(1) [of s] structure_score_range(1) [of s] authority_score_range(1) [of s]
  by simp

lemma weighted_sum_not_fail:
  assumes "\<not> all_rules_fail s"
  shows "4 \<le> weighted_sum (scoring s)"
proof -
  define t where "t = tech_score (scoring s)"
  define u where "u = structure_score (scoring s)"
  define a where "a = authority_score (scoring s)"
  have nn: "0 \<le> t" "0 \<le> u" "0 \<le> a"
    unfolding t_def u_def a_def
    by (rule tech_score_range structure_score_range authority_score_range)+
  have "10 \<le> t \<or> 25 \<le> u \<or> 25 \<le> a"
    using assms tech_score_extremes(3) [of s] structure_score_extremes(3) [of s]
      authority_score_extremes(3) [of s]
    unfolding all_rules_fail_iff t_def u_def a_def by blast
  then have "80 \<le> 8 * t + 7 * u + 5 * a" using nn by linarith
  then have "(of_int 80 :: rat) \<le> of_int (8 * t + 7 * u + 5 * a)" by (simp only: of_int_le_iff)
  then show ?thesis
    unfolding weighted_sum_def t_def [symmetric] u_def [symmetric] a_def [symmetric] by simp
qed

lemma weighted_sum_not_pass:
  assumes "\<not> all_rules_pass s"
  shows "weighted_sum (scoring s) \<le> 96"
proof -
  define t where "t = tech_score (scoring s)"
  define u where "u = structure_score (scoring s)"
  define a where "a = authority_score (scoring s)"
  have nn: "t \<le> 100" "u \<le> 100" "a \<le> 100"
    unfolding t_def u_def a_def
    by (rule tech_score_range structure_score_range authority_score_range)+
  have "t \<le> 90 \<or> u \<le> 75 \<or> a \<le> 75"
    using assms tech_score_extremes(4) [of s] structure_score_extremes(4) [of s]
      authority_score_extremes(4) [of s]
    unfolding all_rules_pass_iff t_def u_def a_def by blast
  then have "8 * t + 7 * u + 5 * a \<le> 1920" using nn by linarith
  then have "(of_int (8 * t + 7 * u + 5 * a) :: rat) \<le> of_int 1920" by (simp only: of_int_le_iff)
  then show ?thesis
    unfolding weighted_sum_def t_def [symmetric] u_def [symmetric] a_def [symmetric] by simp
qed

lemma final_score_zero_iff: "(final_score (scoring s) = 0) = all_rules_fail s"
proof (cases "all_rules_fail s")
  case True
  then show ?thesis
    by (simp add: final_score_exact weighted_sum_fail round_half_even_def double_def)
next
  case False
  define k where "k = round_half_even (weighted_sum (scoring s) * 10)"
  have "40 \<le> weighted_sum (scoring s) * 10" using weighted_sum_not_fail [OF False] by simp
  then have "(0::rat) < of_int k"
    unfolding k_def using round_half_even_ge [of "weighted_sum (scoring s) * 10"] by linarith
  then have "0 < double (of_int k / 10)" by (intro double_pos) simp
  then show ?thesis using False by (simp add: final_score_exact k_def)
qed

lemma final_score_hundred_iff: "(final_score (scoring s) = 100) = all_rules_pass s"
proof (cases "all_rules_pass s")
  case True
  have "double (of_int 400 / 4) = of_int 400 / 4" by (rule double_quarters) simp_all
  then have "double 100 = 100" by simp
  moreover have "round_half_even (weighted_sum (scoring s) * 10) = 1000"
    using round_half_even_of_int [of 1000] by (simp add: weighted_sum_pass [OF True])
  ultimately show ?thesis using True by (simp add: final_score_exact)
next
  case False
  define k where "k = round_half_even (weighted_sum (scoring s) * 10)"
  define x :: rat where "x = of_int k / 10"
  have "weighted_sum (scoring s) * 10 \<le> 960" using weighted_sum_not_pass [OF False] by simp
  then have "(of_int k :: rat) \<le> 960 + 1 / 2"
    unfolding k_def using round_half_even_le [of "weighted_sum (scoring s) * 10"] by linarith
  then have "k \<le> 960" by linarith
  then have x: "x \<le> 96" by (simp add: x_def)
  have "- (1 / 2) \<le> (of_int k :: rat)"
    unfolding k_def using round_half_even_ge [of "weighted_sum (scoring s) * 10"]
      weighted_sum_nonneg [of s] by simp
  then have "0 \<le> k" by linarith
  then have x0: "0 \<le> x" by (simp add: x_def)
  have "double x < 100"
  proof (cases "0 < x")
    case True
    have "double x \<le> x + x / 2 ^ 53" using True by (rule double_upper)
    also have "\<dots> \<le> 96 + 96 / 2 ^ 53" using x by (intro add_mono divide_right_mono) simp_all
    also have "\<dots> < 100" by simp
    finally show ?thesis .
  next
    case False
    with x0 have "x = 0" by simp
    then show ?thesis by (simp add: double_def)
  qed
  then show ?thesis using False by (simp add: final_score_exact k_def x_def)
qed

subsection \<open>The example pages evaluated\<close>

lemma grades_at_least_60: "p \<in> grades \<Longrightarrow> 60 \<le> fst p"
  unfolding grades_def by (elim insertE emptyE) simp_all

lemma grade_below_thresholds:
  assumes "iteration_order xs" "x < 60"
  shows "grade xs x = ''F''"
proof -
  have "\<not> (\<exists>p. p \<in> set xs \<and> (\<lambda>(s, g). of_int s \<le> x) p)"
  proof (rule notI)
    assume "\<exists>p. p \<in> set xs \<and> (\<lambda>(s, g). of_int s \<le> x) p"
    then obtain s g where m: "(s, g) \<in> set xs" and le: "of_int s \<le> x" by auto
    from m assms(1) have "(s, g) \<in> grades" by (simp add: iteration_order_def)
    then have "60 \<le> s" using grades_at_least_60 [of "(s, g)"] by simp
    then have "(60::rat) \<le> of_int s" by simp
    with le assms(2) show False by simp
  qed
  then have "find (\<lambda>(s, g). of_int s \<le> x) xs = None" by (simp add: find_None_iff)
  then show ?thesis by (simp add: grade_def)
qed
lemmas condition_defs =
  find_all_def found_def get_text_def has_json_ld_def has_semantic_tag_def has_headings_def
  few_long_paragraphs_def has_table_def has_list_def mentions_faq_def mentions_author_def
  has_badge_def lower_def external_def

lemma extract_empty_soup: "extract_signals netloc url empty_soup = Some empty_signals"
  by (simp add: extract_signals_def empty_soup_def empty_signals_def condition_defs)

lemma scoring_empty_signals: "scoring empty_signals = empty_scores"
  by (simp add: scoring_def Let_def rule_def add_tech_def add_structure_def add_authority_def
      append_issue_def empty_signals_def empty_scores_def)

lemma analyze_empty_soup: "analyze netloc url empty_soup = Some empty_scores"
  by (simp add: analyze_def extract_empty_soup scoring_empty_signals)

lemma final_score_empty: "final_score empty_scores = 4"
proof -
  have "weighted_sum (scoring empty_signals) * 10 = of_int 40"
    by (simp add: scoring_empty_signals weighted_sum_def empty_scores_def)
  then have "round_half_even (weighted_sum (scoring empty_signals) * 10) = 40"
    by (simp only: round_half_even_of_int)
  moreover have "double (of_int 16 / 4) = of_int 16 / 4" by (rule double_quarters) simp_all
  then have "double 4 = 4" by simp
  ultimately show ?thesis
    using final_score_exact [of empty_signals] by (simp add: scoring_empty_signals)
qed

lemma iteration_order_written: "iteration_order written_order"
  by code_simp

lemma empty_scores_fields:
  "tech_score empty_scores = 10" "structure_score empty_scores = 0"
  "authority_score empty_scores = 0" "length (issues empty_scores) = 9"
  by (simp_all add: empty_scores_def)

lemma netloc_relative: "urlsplit_netloc ''/about'' = []"
  by (simp add: urlsplit_netloc_def strip_scheme_def)

lemma netloc_absolute: "urlsplit_netloc ''https://example.com/page'' = ''example.com''"
  by (simp add: urlsplit_netloc_def strip_scheme_def is_ascii_letter_def is_scheme_char_def
      is_digit_def)

lemma external_nine_site_links:
  "external python_netloc ''https://example.com/page'' nine_site_links = Some 9"
  by (simp add: external_def find_all_def nine_site_links_def site_link_def python_netloc_def
      netloc_relative netloc_absolute numeral_eq_Suc)

lemma descendants_nine_site_links:
  "descendants nine_site_links
     = concat (replicate 9 [site_link, NavigableString ''Up''])"
  by (simp add: nine_site_links_def site_link_def numeral_eq_Suc)

lemma get_text_nine_site_links:
  "get_text nine_site_links = concat (replicate 9 ''Up'')"
  by (simp add: get_text_def descendants_nine_site_links numeral_eq_Suc site_link_def)

lemma extract_nine_site_links:
  "extract_signals python_netloc ''https://example.com/page'' nine_site_links
     = Some site_links_signals"
  unfolding extract_signals_def external_nine_site_links Let_def get_text_nine_site_links
  by (simp add: site_links_signals_def empty_signals_def has_json_ld_def has_semantic_tag_def
      has_headings_def few_long_paragraphs_def has_table_def has_list_def mentions_faq_def
      mentions_author_def has_badge_def found_def find_all_def descendants_nine_site_links
      site_link_def lower_def lower_char_def is_digit_def numeral_eq_Suc get_text_def str_split_def
      is_space_def)

lemma extract_text_page_iso:
  "extract_signals python_netloc ''https://example.com'' (text_page ''Call 9999-99-99'')
     = Some date_page_signals"
  by (simp add: extract_signals_def text_page_def date_page_signals_def empty_signals_def
      has_json_ld_def has_semantic_tag_def has_headings_def few_long_paragraphs_def has_table_def
      has_list_def mentions_faq_def mentions_author_def has_badge_def found_def find_all_def
      lower_def lower_char_def is_digit_def get_text_def str_split_def is_space_def external_def)

lemma extract_text_page_year:
  "extract_signals python_netloc ''https://example.com'' (text_page ''12025'')
     = Some date_page_signals"
  by (simp add: extract_signals_def text_page_def date_page_signals_def empty_signals_def
      has_json_ld_def has_semantic_tag_def has_headings_def few_long_paragraphs_def has_table_def
      has_list_def mentions_faq_def mentions_author_def has_badge_def found_def find_all_def
      lower_def lower_char_def is_digit_def get_text_def str_split_def is_space_def external_def)

subsection \<open>The date pattern\<close>

lemma search_date_append:
  "match_iso_date xs \<or> match_year xs \<Longrightarrow> search_date (pre @ xs)"
proof (induction pre)
  case Nil
  then show ?case by (cases xs) auto
next
  case (Cons c pre)
  then show ?case by simp
qed

lemma match_iso_date_shaped: "iso_shaped m \<Longrightarrow> match_iso_date (m @ post)"
proof -
  assume a: "iso_shaped m"
  then have "length m = 10" by (simp add: iso_shaped_def)
  then obtain a b c d e f g h i j where m: "m = [a, b, c, d, e, f, g, h, i, j]"
    by (auto simp: numeral_eq_Suc length_Suc_conv)
  show ?thesis using a unfolding m by (simp add: iso_shaped_def)
qed

lemma match_year_recent: "m \<in> set recent_years \<Longrightarrow> match_year (m @ post)"
  by (auto simp: recent_years_def)

lemma search_date_pattern:
  "iso_shaped m \<or> m \<in> set recent_years \<Longrightarrow> search_date (pre @ m @ post)"
  using match_iso_date_shaped [of m post] match_year_recent [of m post]
  by (intro search_date_append) blast

lemma date_rule_points:
  "hasRecentDateMention sg \<Longrightarrow>
     tech_score (scoring sg) = tech_score (scoring (sg\<lparr>hasRecentDateMention := False\<rparr>)) + 15
     \<and> (''Add publish/update date'', ''Quick'') \<notin> set (issues (scoring sg))"
  by (simp add: tech_score_scoring issues_scoring)

subsection \<open>The grade under the written order, and the link rule\<close>

text \<open>Scanned in the order in which the literal is written, the thresholds give the
  grades of the specification.\<close>

lemma grade_written_order:
  "grade written_order x =
    (if 94 \<le> x then ''A+'' else if 87 \<le> x then ''A'' else if 80 \<le> x then ''A-''
     else if 77 \<le> x then ''B+'' else if 73 \<le> x then ''B'' else if 70 \<le> x then ''B-''
     else if 67 \<le> x then ''C+'' else if 63 \<le> x then ''C'' else if 60 \<le> x then ''C-''
     else ''F'')"
  by (simp add: grade_def written_order_def)

text \<open>The rule of line 79 is strict: a count of exactly 8 fails it.\<close>

lemma external_rule_strict:
  "(externalLinkCount sg > 8) =
     ((''Link to reputable sources'', ''Moderate'') \<notin> set (issues (scoring sg)))"
  "externalLinkCount sg = 8 \<Longrightarrow>
     (''Link to reputable sources'', ''Moderate'') \<in> set (issues (scoring sg))"
  by (simp_all add: issues_scoring)

section \<open>The claims\<close>

lemma failed_issues_Cons:
  "map snd (filter (\<lambda>r. \<not> fst r s) ((c, i) # rs))
     = (if c s then [] else [i]) @ map snd (filter (\<lambda>r. \<not> fst r s) rs)"
  by simp

lemma issues_eq_failed: "issues (scoring s) = failed_issues s"
  unfolding failed_issues_def issue_table_def failed_issues_Cons issues_scoring
  by simp

text \<open>
  Claim C7. The priority is URGENT exactly below 60, HIGH exactly from 60 up to but not
  including 75, MEDIUM exactly from 75 up to but not including 85, and LOW exactly from 85
  on; a boundary value belongs to the higher bucket. This holds for every value of the
  final score, in particular for those between 0 and 100.
\<close>

theorem priority_thresholds:
  "(priority x = ''URGENT'') = (x < 60)
   \<and> (priority x = ''HIGH'') = (60 \<le> x \<and> x < 75)
   \<and> (priority x = ''MEDIUM'') = (75 \<le> x \<and> x < 85)
   \<and> (priority x = ''LOW'') = (85 \<le> x)"
  by (auto simp: priority_def)

text \<open>The thresholds at the boundary values 60, 75 and 85 and just below 60.\<close>

theorem priority_thresholds_witness:
  "priority 60 = ''HIGH'' \<and> priority 60 \<noteq> ''URGENT'' \<and> priority 75 = ''MEDIUM''
   \<and> priority 75 \<noteq> ''HIGH'' \<and> priority (599 / 10) = ''URGENT'' \<and> priority 85 = ''LOW''"
  using priority_thresholds [of 60] priority_thresholds [of 75]
    priority_thresholds [of "599 / 10"] priority_thresholds [of 85]
  by simp

text \<open>
  Claim C8. For every signal set the issues list is exactly the issues of the failed
  rules in the order of the rule table (technical, then structural, then authority), so
  it is a subsequence of the fixed list of all nine issues: entries come and go, their
  relative order never changes.
\<close>

theorem issues_follow_table_order:
  "issues (scoring s) = failed_issues s \<and> subseq (issues (scoring s)) (map snd issue_table)"
  unfolding issues_eq_failed failed_issues_def by (simp add: subseq_map)

text \<open>The empty page fails all nine rules that carry an issue; a page that passes
  every rule has none.\<close>

theorem issues_follow_table_order_witness:
  "issues (scoring empty_signals) = map snd issue_table
   \<and> issues (scoring empty_signals) = failed_issues empty_signals
   \<and> issues (scoring passing_signals) = []
   \<and> failed_issues passing_signals = []"
proof -
  have "failed_issues empty_signals = map snd issue_table"
    by (simp add: failed_issues_def issue_table_def empty_signals_def)
  moreover have "failed_issues passing_signals = []"
    by (simp add: failed_issues_def issue_table_def passing_signals_def)
  ultimately show ?thesis
    using issues_follow_table_order [of empty_signals]
      issues_follow_table_order [of passing_signals]
    by simp
qed

text \<open>
  Claim C5. For every signal set each sub-score lies between 0 and 100, each reaches 100
  when all rules pass (the points of a category add up to 100), and the final score is
  the weighted sum \<open>0.40 * technical + 0.35 * structure + 0.25 * authority\<close> rounded to one
  decimal: the float arithmetic of line 84 adds no error of its own.
\<close>

theorem sub_scores_and_final_score:
  "0 \<le> tech_score (scoring s) \<and> tech_score (scoring s) \<le> 100
   \<and> 0 \<le> structure_score (scoring s) \<and> structure_score (scoring s) \<le> 100
   \<and> 0 \<le> authority_score (scoring s) \<and> authority_score (scoring s) \<le> 100
   \<and> (all_rules_pass s \<longrightarrow>
        tech_score (scoring s) = 100 \<and> structure_score (scoring s) = 100
        \<and> authority_score (scoring s) = 100)
   \<and> final_score (scoring s)
       = double (of_int (round_half_even (weighted_sum (scoring s) * 10)) / 10)"
  using tech_score_range(1,2) [of s] structure_score_range [of s] authority_score_range [of s]
    final_score_exact [of s] all_rules_pass_iff [of s]
  by simp

text \<open>All rules pass: the three sub-scores and the final score are 100.\<close>

theorem sub_scores_and_final_score_witness:
  "all_rules_pass passing_signals
   \<and> tech_score (scoring passing_signals) = 100
   \<and> structure_score (scoring passing_signals) = 100
   \<and> authority_score (scoring passing_signals) = 100
   \<and> weighted_sum (scoring passing_signals) = 100
   \<and> final_score (scoring passing_signals) = double (of_int (round_half_even (100 * 10)) / 10)"
proof -
  have p: "all_rules_pass passing_signals"
    by (simp add: all_rules_pass_def passing_signals_def)
  show ?thesis
    using sub_scores_and_final_score [of passing_signals] p weighted_sum_pass [OF p]
    by simp
qed

text \<open>
  Claim C6. For every signal set the final score is 0 if and only if every rule fails,
  and 100 if and only if every rule passes.
\<close>

theorem final_score_extremes:
  "(final_score (scoring s) = 0) = all_rules_fail s
   \<and> (final_score (scoring s) = 100) = all_rules_pass s"
  by (simp only: final_score_zero_iff final_score_hundred_iff)

text \<open>The two extremes, and the empty page between them.\<close>

theorem final_score_extremes_witness:
  "all_rules_fail failing_signals \<and> final_score (scoring failing_signals) = 0
   \<and> all_rules_pass passing_signals \<and> final_score (scoring passing_signals) = 100
   \<and> \<not> all_rules_fail empty_signals \<and> final_score (scoring empty_signals) \<noteq> 0"
proof -
  have "all_rules_fail failing_signals"
    by (simp add: all_rules_fail_def failing_signals_def empty_signals_def)
  moreover have "all_rules_pass passing_signals"
    by (simp add: all_rules_pass_def passing_signals_def)
  moreover have "\<not> all_rules_fail empty_signals"
    by (simp add: all_rules_fail_def empty_signals_def)
  ultimately show ?thesis
    using final_score_extremes [of failing_signals] final_score_extremes [of passing_signals]
      final_score_extremes [of empty_signals]
    by simp
qed

text \<open>
  Claim C1. The claim says that the thresholds are scanned from the highest to the
  lowest, so that 94.0 is graded A+ and 93.9 is graded A. The code scans a set: under
  the iteration order \<open>hashed_order\<close> both scores meet the threshold 70 first and are
  graded B-. Only under the order in which the literal is written does the scan give
  A+ and A.
\<close>

theorem grade_follows_iteration_order:
  "iteration_order hashed_order
   \<and> grade hashed_order 94 = ''B-''
   \<and> grade hashed_order (double (939 / 10)) = ''B-''
   \<and> grade written_order 94 = ''A+''
   \<and> grade written_order (double (939 / 10)) = ''A''"
  by code_simp

text \<open>
  Claim C2. The claim says that the same final score always yields the same pair of
  grade and priority. Two iteration orders of the same set give the score 100 two
  different grades, so two runs of the program can classify the same score differently.
\<close>

theorem classification_depends_on_iteration_order:
  "iteration_order written_order \<and> iteration_order hashed_order
   \<and> (grade written_order 100, priority 100) \<noteq> (grade hashed_order 100, priority 100)"
  by code_simp

text \<open>
  Claim C9. Whatever the page, when the analysis returns, its issues list has at most
  nine entries, so the first ten entries shown on the page are the whole list, which is
  also the list written to the PDF.
\<close>

theorem issues_never_truncated:
  "analyze netloc url soup = Some st \<Longrightarrow>
     length (issues st) \<le> 9 \<and> displayed_issues st = issues st
     \<and> displayed_issues st = pdf_issues st"
proof -
  assume "analyze netloc url soup = Some st"
  then obtain sg where "st = scoring sg" by (auto simp: analyze_def)
  then have "length (issues st) \<le> 9" using length_issues_le [of sg] by simp
  then show ?thesis by (simp add: displayed_issues_def pdf_issues_def)
qed

text \<open>The empty page: its nine issues are all displayed.\<close>

theorem issues_never_truncated_witness:
  "analyze python_netloc ''https://example.com'' empty_soup = Some empty_scores
   \<and> length (issues empty_scores) \<le> 9
   \<and> displayed_issues empty_scores = issues empty_scores
   \<and> displayed_issues empty_scores = pdf_issues empty_scores"
  using issues_never_truncated [of python_netloc "''https://example.com''" empty_soup empty_scores]
    analyze_empty_soup [of python_netloc "''https://example.com''"]
  by (simp add: pdf_issues_def)

text \<open>
  Claim C3, as stated, fails on the empty markup: the rule of line 65 passes, because
  fewer than three paragraphs are long, so the technical score is 10 and not 0, the
  final score is 4.0 and not 0.0, and the issues list has nine entries and not eight.
\<close>

theorem empty_markup_counterexample:
  "map_option hasReasonableParagraphLength
     (extract_signals python_netloc ''https://example.com'' empty_soup) = Some True
   \<and> map_option tech_score (analyze python_netloc ''https://example.com'' empty_soup) = Some 10
   \<and> map_option tech_score (analyze python_netloc ''https://example.com'' empty_soup) \<noteq> Some 0
   \<and> map_option final_score (analyze python_netloc ''https://example.com'' empty_soup) = Some 4
   \<and> map_option final_score (analyze python_netloc ''https://example.com'' empty_soup) \<noteq> Some 0
   \<and> map_option (length \<circ> issues) (analyze python_netloc ''https://example.com'' empty_soup)
       = Some 9
   \<and> map_option (length \<circ> issues) (analyze python_netloc ''https://example.com'' empty_soup)
       \<noteq> Some 8"
proof -
  have "hasReasonableParagraphLength empty_signals" by (simp add: empty_signals_def)
  then show ?thesis
    by (simp add: analyze_empty_soup extract_empty_soup final_score_empty empty_scores_fields)
qed

text \<open>
  Claim C3, amended. For the empty markup every signal is false or zero except that of
  the paragraph rule; the sub-scores are 10, 0 and 0, the final score is 4.0, the grade
  is F under every iteration order of the set, the priority is URGENT, and the issues
  list has exactly nine entries, one for each rule that has an issue text.
\<close>

theorem empty_markup_analysis:
  "extract_signals netloc url empty_soup = Some empty_signals
   \<and> analyze netloc url empty_soup = Some empty_scores
   \<and> final_score empty_scores = 4
   \<and> (iteration_order xs \<longrightarrow> grade xs (final_score empty_scores) = ''F'')
   \<and> priority (final_score empty_scores) = ''URGENT''
   \<and> length (issues empty_scores) = 9"
  using grade_below_thresholds [of xs 4]
  by (simp add: analyze_empty_soup extract_empty_soup final_score_empty priority_def
      empty_scores_fields)

text \<open>The amended claim at a concrete page URL and iteration order.\<close>

theorem empty_markup_analysis_witness:
  "iteration_order written_order
   \<and> extract_signals python_netloc ''https://example.com'' empty_soup = Some empty_signals
   \<and> analyze python_netloc ''https://example.com'' empty_soup = Some empty_scores
   \<and> tech_score empty_scores = 10 \<and> structure_score empty_scores = 0
   \<and> authority_score empty_scores = 0
   \<and> final_score empty_scores = 4
   \<and> grade written_order (final_score empty_scores) = ''F''
   \<and> priority (final_score empty_scores) = ''URGENT''
   \<and> length (issues empty_scores) = 9"
proof -
  note a = empty_markup_analysis [of python_netloc "''https://example.com''" written_order]
  have "grade written_order (final_score empty_scores) = ''F''"
    using a iteration_order_written by (elim conjE) (rule mp)
  then show ?thesis
    using a iteration_order_written empty_scores_fields
    by (simp add: final_score_empty priority_def)
qed

text \<open>
  Claim C4. The claim says that \<open>external\<close> counts the anchors whose host differs from
  the host of the page and leaves out the anchors that have no host of their own. The
  code compares the two network locations as strings, and a relative link has the empty
  one: on the page \<open>https://example.com/page\<close> nine links to \<open>/about\<close> count as nine
  external links, the rule of line 79 passes and adds its 35 points, and the issue
  is not emitted.
\<close>

theorem site_links_counted_as_external:
  "extract_signals python_netloc ''https://example.com/page'' nine_site_links
     = Some site_links_signals
   \<and> externalLinkCount site_links_signals = 9
   \<and> analyze python_netloc ''https://example.com/page'' nine_site_links
       = Some (scoring site_links_signals)
   \<and> authority_score (scoring site_links_signals) = 35
   \<and> (''Link to reputable sources'', ''Moderate'') \<notin> set (issues (scoring site_links_signals))"
  by (simp add: analyze_def extract_nine_site_links authority_score_scoring issues_scoring)
     (simp add: site_links_signals_def empty_signals_def)

text \<open>
  Claim C10. If the text of a page contains a string of the form \<open>dddd-dd-dd\<close>, a
  calendar date or not, or the digits of a year from 2024 to 2029, alone or inside a
  longer number, the date signal is true: the rule of line 63 adds its 15 points and
  its issue is not emitted.
\<close>

theorem date_pattern_sets_signal:
  assumes "iso_shaped m \<or> m \<in> set recent_years"
    and "get_text soup = pre @ m @ post"
    and "extract_signals netloc url soup = Some sg"
  shows "hasRecentDateMention sg
     \<and> tech_score (scoring sg) = tech_score (scoring (sg\<lparr>hasRecentDateMention := False\<rparr>)) + 15
     \<and> (''Add publish/update date'', ''Quick'') \<notin> set (issues (scoring sg))"
proof -
  have "search_date (get_text soup)"
    unfolding assms(2) using assms(1) by (rule search_date_pattern)
  then have "hasRecentDateMention sg"
    using assms(3) by (auto simp: extract_signals_def Let_def split: option.splits)
  then show ?thesis using date_rule_points [of sg] by simp
qed

text \<open>The texts \<open>Call 9999-99-99\<close> and \<open>12025\<close> hold no date and no year, and both
  set the signal.\<close>

theorem date_pattern_sets_signal_witness:
  "iso_shaped ''9999-99-99''
   \<and> get_text (text_page ''Call 9999-99-99'') = ''Call '' @ ''9999-99-99'' @ ''''
   \<and> extract_signals python_netloc ''https://example.com'' (text_page ''Call 9999-99-99'')
       = Some date_page_signals
   \<and> ''2025'' \<in> set recent_years
   \<and> get_text (text_page ''12025'') = ''1'' @ ''2025'' @ ''''
   \<and> extract_signals python_netloc ''https://example.com'' (text_page ''12025'')
       = Some date_page_signals
   \<and> hasRecentDateMention date_page_signals
   \<and> tech_score (scoring date_page_signals) = 25
   \<and> (''Add publish/update date'', ''Quick'') \<notin> set (issues (scoring date_page_signals))"
proof -
  have i: "iso_shaped ''9999-99-99''" by (simp add: iso_shaped_def is_digit_def)
  have y: "''2025'' \<in> set recent_years" by (simp add: recent_years_def)
  have t1: "get_text (text_page ''Call 9999-99-99'') = ''Call '' @ ''9999-99-99'' @ ''''"
    by (simp add: text_page_def get_text_def)
  have t2: "get_text (text_page ''12025'') = ''1'' @ ''2025'' @ ''''"
    by (simp add: text_page_def get_text_def)
  have p: "tech_score (scoring (date_page_signals\<lparr>hasRecentDateMention := False\<rparr>)) = 10"
    by (simp add: tech_score_scoring date_page_signals_def empty_signals_def)
  note r1 = date_pattern_sets_signal [OF disjI1 [OF i] t1 extract_text_page_iso]
  note r2 = date_pattern_sets_signal [OF disjI2 [OF y] t2 extract_text_page_year]
  show ?thesis using i y t1 t2 extract_text_page_iso extract_text_page_year r1 r2 p by simp
qed

end
